theory Spec2Isabelle
  imports Complex_Main "HOL-Library.Log_Nat"
begin

section \<open>SERP similarity analysis: the model\<close>

text \<open>
  The development follows \<^verbatim>\<open>serp-similarity.py\<close>: the functions \<^verbatim>\<open>get_domain\<close> and
  \<^verbatim>\<open>analyze_serp_similarity\<close>. Python exceptions are values of type \<open>error\<close> and Python
  integers are \<open>int\<close>. The floating-point results are rational numbers: the two
  similarity ratios are computed exactly, and the mean position difference is rounded to
  binary64 as \<^verbatim>\<open>np.mean\<close> rounds it.
\<close>

subsection \<open>Exceptions\<close>

datatype error = KeyError string | ZeroDivisionError

subsection \<open>Dictionaries\<close>

text \<open>
  A Python \<^verbatim>\<open>dict\<close> keeps its keys in insertion order. Assigning to a key that is
  present overwrites the value in place; a new key goes to the end.
\<close>

type_synonym 'v pydict = "(string \<times> 'v) list"

fun dict_setitem :: "'v pydict \<Rightarrow> string \<Rightarrow> 'v \<Rightarrow> 'v pydict" where
  "dict_setitem [] k v = [(k, v)]"
| "dict_setitem ((k', v') # d) k v =
     (if k' = k then (k', v) # d else (k', v') # dict_setitem d k v)"

definition keys :: "'v pydict \<Rightarrow> string list" where
  "keys d = map fst d"

definition len :: "'v pydict \<Rightarrow> nat" where
  "len d = length d"

subsection \<open>Strings\<close>

text \<open>
  \<^verbatim>\<open>s.replace(old, new)\<close>: the occurrences of \<open>old\<close> are replaced from left to right,
  without overlap. For an empty \<open>old\<close>, Python puts \<open>new\<close> before every character and at
  the end.
\<close>

function str_replace :: "string \<Rightarrow> string \<Rightarrow> string \<Rightarrow> string" where
  "str_replace old new s =
     (if old = [] then new @ concat (map (\<lambda>c. c # new) s)
      else if s = [] then []
      else if take (length old) s = old
        then new @ str_replace old new (drop (length old) s)
      else hd s # str_replace old new (tl s))"
  by pat_completeness auto
termination
  by (relation "measure (\<lambda>(old, new, s). length s)") auto

declare str_replace.simps [simp del]

subsection \<open>The network location of a URL\<close>

text \<open>
  \<^verbatim>\<open>urlparse(url).netloc\<close> comes from Python's standard library, not from the repository.
  The functions of the repository take it as the parameter \<open>netloc_of\<close>, which gives
  \<open>None\<close> where \<^verbatim>\<open>urlparse\<close> raises. The general theorems hold for every such parameter.

  For concrete inputs, \<open>urlsplit_netloc\<close> follows \<^verbatim>\<open>urllib.parse.urlsplit\<close> of CPython 3.11
  on strings of characters up to U+00FF (where its NFKC check of the network location
  never fires): strip leading C0 controls and spaces, delete tab, CR and LF, split a
  scheme off, and, when the rest starts with \<^verbatim>\<open>//\<close>, take everything up to the first of
  \<^verbatim>\<open>/\<close>, \<^verbatim>\<open>?\<close>, \<^verbatim>\<open>#\<close>. Unbalanced square brackets raise. The library's validation of an IP
  literal between brackets is the parameter \<open>check_bracketed_host\<close>.
\<close>

definition lstrip_c0_space :: "string \<Rightarrow> string" where
  "lstrip_c0_space url = dropWhile (\<lambda>c. (of_char c :: nat) \<le> 32) url"

definition remove_unsafe_bytes :: "string \<Rightarrow> string" where
  "remove_unsafe_bytes url =
     filter (\<lambda>c. (of_char c :: nat) \<noteq> 9 \<and> (of_char c :: nat) \<noteq> 13 \<and> (of_char c :: nat) \<noteq> 10) url"

definition ascii_alpha :: "char \<Rightarrow> bool" where
  "ascii_alpha c =
     (let n = (of_char c :: nat) in (65 \<le> n \<and> n \<le> 90) \<or> (97 \<le> n \<and> n \<le> 122))"

definition scheme_char :: "char \<Rightarrow> bool" where
  "scheme_char c =
     (let n = (of_char c :: nat)
      in ascii_alpha c \<or> (48 \<le> n \<and> n \<le> 57) \<or> n = 43 \<or> n = 45 \<or> n = 46)"

definition strip_scheme :: "string \<Rightarrow> string" where
  "strip_scheme url =
     (let i = length (takeWhile (\<lambda>c. c \<noteq> CHR '':'') url)
      in case url of
           [] \<Rightarrow> url
         | c # _ \<Rightarrow>
             if i < length url \<and> 0 < i \<and> ascii_alpha c \<and> list_all scheme_char (take i url)
             then drop (i + 1) url
             else url)"

definition splitnetloc :: "string \<Rightarrow> string" where
  "splitnetloc url =
     takeWhile (\<lambda>c. c \<noteq> CHR ''/'' \<and> c \<noteq> CHR ''?'' \<and> c \<noteq> CHR ''#'') (drop 2 url)"

definition bracketed_host :: "string \<Rightarrow> string" where
  "bracketed_host netloc =
     takeWhile (\<lambda>c. c \<noteq> CHR '']'') (drop 1 (dropWhile (\<lambda>c. c \<noteq> CHR ''['') netloc))"

definition urlsplit_netloc :: "(string \<Rightarrow> bool) \<Rightarrow> string \<Rightarrow> string option" where
  "urlsplit_netloc check_bracketed_host url0 =
     (let url = strip_scheme (remove_unsafe_bytes (lstrip_c0_space url0))
      in if take 2 url = ''//''
         then (let netloc = splitnetloc url;
                   lb = CHR ''['' \<in> set netloc;
                   rb = CHR '']'' \<in> set netloc
               in if lb \<noteq> rb then None
                  else if lb \<and> rb \<and> \<not> check_bracketed_host (bracketed_host netloc) then None
                  else Some netloc)
         else Some [])"

subsection \<open>\<^verbatim>\<open>get_domain\<close>\<close>

text \<open>
  \<^verbatim>\<open>
  def get_domain(url: str) -> str:
      try:
          parsed = urlparse(url)
          domain = parsed.netloc
          return domain.replace('www.', '')
      except:
          return url
  \<close>
\<close>

definition get_domain :: "(string \<Rightarrow> string option) \<Rightarrow> string \<Rightarrow> string" where
  "get_domain netloc_of url =
     (case netloc_of url of
        Some domain \<Rightarrow> str_replace ''www.'' '''' domain
      | None \<Rightarrow> url)"

subsection \<open>Search results\<close>

text \<open>
  One organic result is a JSON object; a field is \<open>None\<close> when the object has no such
  key. The response of the search provider is an object that may have the key
  \<^verbatim>\<open>organic\<close>, a list of results.
\<close>

record search_result =
  title :: "string option"
  link :: "string option"
  snippet :: "string option"

record serp_results =
  organic :: "search_result list option"

subsection \<open>The report\<close>

record position_change =
  pos1 :: int
  pos2 :: int
  diff :: int

text \<open>
  \<^verbatim>\<open>common_domains\<close> and \<^verbatim>\<open>common_urls\<close> are Python sets. \<^verbatim>\<open>position_differences\<close> and
  \<^verbatim>\<open>position_changes\<close> are dictionaries built by iterating over the set
  \<^verbatim>\<open>common_domains\<close>, whose order Python leaves open: they are maps. \<^verbatim>\<open>domains1\<close> and
  \<^verbatim>\<open>domains2\<close> are built from the result lists and keep their order.
\<close>

record similarity_report =
  common_domains :: "string set"
  common_urls :: "string set"
  domain_similarity :: rat
  url_similarity :: rat
  position_differences :: "string \<rightharpoonup> int"
  avg_position_diff :: rat
  position_changes :: "string \<rightharpoonup> position_change"
  domains1 :: "int pydict"
  domains2 :: "int pydict"
  total_results1 :: nat
  total_results2 :: nat

subsection \<open>\<^verbatim>\<open>analyze_serp_similarity\<close>\<close>

text \<open>
  The comprehension \<^verbatim>\<open>{key(result['link']): i+1 for i, result in enumerate(organic)}\<close>,
  as a loop over the results with the counter \<open>i\<close> and the dictionary built so far.
  \<^verbatim>\<open>result['link']\<close> raises \<^verbatim>\<open>KeyError\<close> on a result without that key.
\<close>

fun position_index ::
  "(string \<Rightarrow> string) \<Rightarrow> int \<Rightarrow> search_result list \<Rightarrow> int pydict \<Rightarrow> error + int pydict" where
  "position_index key i [] d = Inr d"
| "position_index key i (result # rest) d =
     (case link result of
        None \<Rightarrow> Inl (KeyError ''link'')
      | Some url \<Rightarrow> position_index key (i + 1) rest (dict_setitem d (key url) (i + 1)))"

text \<open>
  The two comprehensions over \<^verbatim>\<open>common_domains\<close>. Every common domain is a key of both
  dictionaries, so the lookups \<^verbatim>\<open>domains1[domain]\<close> and \<^verbatim>\<open>domains2[domain]\<close> find a value
  (lemma \<open>common_lookup\<close> below); the branch without one is never taken.
\<close>

definition position_differences_of :: "int pydict \<Rightarrow> int pydict \<Rightarrow> string \<rightharpoonup> int" where
  "position_differences_of dom1 dom2 =
     (\<lambda>domain.
        if domain \<in> set (keys dom1) \<inter> set (keys dom2)
        then (case (map_of dom1 domain, map_of dom2 domain) of
                (Some p1, Some p2) \<Rightarrow> Some \<bar>p1 - p2\<bar>
              | _ \<Rightarrow> None)
        else None)"

definition position_changes_of :: "int pydict \<Rightarrow> int pydict \<Rightarrow> string \<rightharpoonup> position_change" where
  "position_changes_of dom1 dom2 =
     (\<lambda>domain.
        if domain \<in> set (keys dom1) \<inter> set (keys dom2)
        then (case (map_of dom1 domain, map_of dom2 domain) of
                (Some p1, Some p2) \<Rightarrow>
                  if \<bar>p1 - p2\<bar> > 2
                  then Some \<lparr>pos1 = p1, pos2 = p2, diff = p2 - p1\<rparr>
                  else None
              | _ \<Rightarrow> None)
        else None)"

text \<open>
  Rounding to binary64. A non-zero rational \<open>q\<close> with \<open>2 ^ e \<le> \<bar>q\<bar> < 2 ^ (e + 1)\<close> is rounded
  to the nearest multiple of \<open>2 ^ (e - 52)\<close>, a tie going to the even multiple. The exponent
  range of the format (overflow, subnormal numbers) is not modelled: a mean of \<open>n\<close>
  position differences is 0 or lies between \<open>1 / n\<close> and the length of the longer list.
\<close>

definition pow2 :: "int \<Rightarrow> rat" where
  "pow2 k = (if 0 \<le> k then 2 ^ nat k else 1 / 2 ^ nat (- k))"

definition floor_log2 :: "rat \<Rightarrow> int" where
  "floor_log2 q =
     (let k = bitlen (fst (quotient_of q)) - bitlen (snd (quotient_of q))
      in if pow2 k \<le> q then k else k - 1)"

definition round_half_even :: "rat \<Rightarrow> int" where
  "round_half_even x =
     (let f = \<lfloor>x\<rfloor>; d = x - of_int f
      in if d < 1 / 2 then f
         else if 1 / 2 < d then f + 1
         else if even f then f else f + 1)"

definition binary64_round :: "rat \<Rightarrow> rat" where
  "binary64_round q =
     (if q = 0 then 0
      else (let ulp = pow2 (floor_log2 \<bar>q\<bar> - 52)
            in sgn q * of_int (round_half_even (\<bar>q\<bar> / ulp)) * ulp))"

text \<open>
  \<^verbatim>\<open>np.mean(list(position_differences.values())) if position_differences else 0\<close>:
  the dictionary has one entry for each common domain, so it is empty exactly when
  \<^verbatim>\<open>common_domains\<close> is. \<^verbatim>\<open>np.mean\<close> adds the values in binary64 and divides the sum by their
  number, which rounds the quotient once; the sum itself is exact as long as it is below
  \<open>2 ^ 53\<close>, which it is for any result list of fewer than ninety million entries. Without a
  common domain the result is the Python integer 0.
\<close>

definition mean_position_diff :: "string set \<Rightarrow> (string \<rightharpoonup> int) \<Rightarrow> rat" where
  "mean_position_diff common differences =
     (if common = {} then 0
      else binary64_round
             (of_int (\<Sum>domain\<in>common. case differences domain of Some v \<Rightarrow> v | None \<Rightarrow> 0)
              / of_nat (card common)))"

text \<open>
  The part of the function after the four dictionaries are built. The two divisions
  raise \<^verbatim>\<open>ZeroDivisionError\<close> when the divisor \<^verbatim>\<open>max(len(..), len(..))\<close> is 0.
\<close>

definition similarity_metrics ::
  "int pydict \<Rightarrow> int pydict \<Rightarrow> int pydict \<Rightarrow> int pydict \<Rightarrow> nat \<Rightarrow> nat
     \<Rightarrow> error + similarity_report" where
  "similarity_metrics dom1 dom2 url1 url2 n1 n2 =
     (let common_d = set (keys dom1) \<inter> set (keys dom2);
          common_u = set (keys url1) \<inter> set (keys url2);
          differences = position_differences_of dom1 dom2
      in if max (len dom1) (len dom2) = 0 then Inl ZeroDivisionError
         else if max (len url1) (len url2) = 0 then Inl ZeroDivisionError
         else Inr \<lparr>common_domains = common_d,
                   common_urls = common_u,
                   domain_similarity =
                     of_nat (card common_d) / of_nat (max (len dom1) (len dom2)) * 100,
                   url_similarity =
                     of_nat (card common_u) / of_nat (max (len url1) (len url2)) * 100,
                   position_differences = differences,
                   avg_position_diff = mean_position_diff common_d differences,
                   position_changes = position_changes_of dom1 dom2,
                   domains1 = dom1,
                   domains2 = dom2,
                   total_results1 = n1,
                   total_results2 = n2\<rparr>)"

text \<open>\<^verbatim>\<open>results.get('organic', [])\<close>\<close>

definition get_organic :: "serp_results \<Rightarrow> search_result list" where
  "get_organic results = (case organic results of Some rs \<Rightarrow> rs | None \<Rightarrow> [])"

definition analyze_serp_similarity ::
  "(string \<Rightarrow> string option) \<Rightarrow> serp_results \<Rightarrow> serp_results \<Rightarrow> error + similarity_report" where
  "analyze_serp_similarity netloc_of results1 results2 =
     (let organic1 = get_organic results1;
          organic2 = get_organic results2
      in case position_index (get_domain netloc_of) 0 organic1 [] of
           Inl e \<Rightarrow> Inl e
         | Inr dom1 \<Rightarrow>
      (case position_index (get_domain netloc_of) 0 organic2 [] of
           Inl e \<Rightarrow> Inl e
         | Inr dom2 \<Rightarrow>
      (case position_index (\<lambda>url. url) 0 organic1 [] of
           Inl e \<Rightarrow> Inl e
         | Inr url1 \<Rightarrow>
      (case position_index (\<lambda>url. url) 0 organic2 [] of
           Inl e \<Rightarrow> Inl e
         | Inr url2 \<Rightarrow>
             similarity_metrics dom1 dom2 url1 url2 (length organic1) (length organic2)))))"


subsection \<open>Notions used in the statements\<close>

text \<open>A result is well formed when it has the key \<^verbatim>\<open>link\<close>.\<close>

definition has_link :: "search_result \<Rightarrow> bool" where
  "has_link result = (link result \<noteq> None)"

text \<open>The dictionary key of the result at index \<open>j\<close> (counted from 0).\<close>

definition key_at :: "(string \<Rightarrow> string) \<Rightarrow> search_result list \<Rightarrow> nat \<Rightarrow> string option" where
  "key_at key rs j = map_option key (link (rs ! j))"

text \<open>
  \<open>p\<close> is the 1-based position of the last result of \<open>rs\<close> whose key is \<open>k\<close>.
\<close>

definition last_occurrence :: "(string \<Rightarrow> string) \<Rightarrow> search_result list \<Rightarrow> string \<Rightarrow> int \<Rightarrow> bool" where
  "last_occurrence key rs k p =
     (\<exists>j<length rs. p = int j + 1 \<and> key_at key rs j = Some k \<and>
        (\<forall>j'. j < j' \<and> j' < length rs \<longrightarrow> key_at key rs j' \<noteq> Some k))"

text \<open>
  The position that the rule of the specification would retain (``first-seen wins: only
  the earliest position is retained''), written from the specification's words and used
  only to compare it with what the code retains.
\<close>

fun spec_first_seen :: "(string \<Rightarrow> string) \<Rightarrow> int \<Rightarrow> search_result list \<Rightarrow> string \<Rightarrow> int option" where
  "spec_first_seen key i [] k = None"
| "spec_first_seen key i (result # rest) k =
     (if map_option key (link result) = Some k then Some (i + 1)
      else spec_first_seen key (i + 1) rest k)"


subsection \<open>Inputs of the worked examples\<close>

text \<open>A result that has only the key \<^verbatim>\<open>link\<close>.\<close>

definition result_with_link :: "string \<Rightarrow> search_result" where
  "result_with_link url = \<lparr>title = None, link = Some url, snippet = None\<rparr>"

text \<open>
  The network location as the standard library computes it, with every bracketed host
  accepted (no example URL has a bracket).
\<close>

definition py_netloc :: "string \<Rightarrow> string option" where
  "py_netloc = urlsplit_netloc (\<lambda>host. True)"

text \<open>The two result sets of the scenario of the specification.\<close>

definition scenario_A :: serp_results where
  "scenario_A = \<lparr>organic = Some [result_with_link ''https://a.com/1'',
                                   result_with_link ''https://b.com/1'']\<rparr>"

definition scenario_B :: serp_results where
  "scenario_B = \<lparr>organic = Some [result_with_link ''https://b.com/2'',
                                   result_with_link ''https://a.com/1'']\<rparr>"

text \<open>A response without the key \<^verbatim>\<open>organic\<close>, and one whose list of results is empty.\<close>

definition no_organic :: serp_results where
  "no_organic = \<lparr>organic = None\<rparr>"

definition empty_organic :: serp_results where
  "empty_organic = \<lparr>organic = Some []\<rparr>"

text \<open>
  Two result sets over the same four domains: \<^verbatim>\<open>d.com\<close> moves by three positions,
  \<^verbatim>\<open>a.com\<close> and \<^verbatim>\<open>b.com\<close> by two, \<^verbatim>\<open>c.com\<close> by two.
\<close>

definition moved_A :: serp_results where
  "moved_A = \<lparr>organic = Some [result_with_link ''https://a.com/'',
                                result_with_link ''https://b.com/'',
                                result_with_link ''https://c.com/'',
                                result_with_link ''https://d.com/'']\<rparr>"

definition moved_B :: serp_results where
  "moved_B = \<lparr>organic = Some [result_with_link ''https://d.com/'',
                                result_with_link ''https://e.com/'',
                                result_with_link ''https://a.com/'',
                                result_with_link ''https://b.com/'']\<rparr>"

text \<open>A result set in which the domain \<^verbatim>\<open>a.com\<close> and a URL occur more than once.\<close>

definition duplicate_A :: serp_results where
  "duplicate_A = \<lparr>organic = Some [result_with_link ''https://a.com/1'',
                                    result_with_link ''https://a.com/2'',
                                    result_with_link ''https://a.com/1'']\<rparr>"

definition duplicate_B :: serp_results where
  "duplicate_B = \<lparr>organic = Some [result_with_link ''https://a.com/1'']\<rparr>"

text \<open>A result set that shares no domain with \<open>scenario_A\<close>.\<close>

definition disjoint_B :: serp_results where
  "disjoint_B = \<lparr>organic = Some [result_with_link ''https://x.com/1'']\<rparr>"


section \<open>Auxiliary facts\<close>

lemma keys_dict_setitem: "set (keys (dict_setitem d k v)) = insert k (set (keys d))"
  by (induction d k v rule: dict_setitem.induct) (auto simp: keys_def)

lemma distinct_dict_setitem: "distinct (keys d) \<Longrightarrow> distinct (keys (dict_setitem d k v))"
proof (induction d k v rule: dict_setitem.induct)
  case (1 k v)
  then show ?case by (simp add: keys_def)
next
  case (2 k' v' d k v)
  have "set (keys (dict_setitem d k v)) = insert k (set (keys d))"
    by (rule keys_dict_setitem)
  with 2 show ?case by (auto simp: keys_def)
qed

lemma map_of_dict_setitem: "map_of (dict_setitem d k v) = (map_of d)(k \<mapsto> v)"
  by (induction d k v rule: dict_setitem.induct) (auto simp: fun_eq_iff)

lemma position_index_error: "position_index key i rs d = Inl e \<Longrightarrow> e = KeyError ''link''"
  by (induction rs arbitrary: i d) (auto split: option.splits)

lemma position_index_returns:
  "(\<exists>d'. position_index key i rs d = Inr d') \<longleftrightarrow> list_all has_link rs"
  by (induction rs arbitrary: i d) (auto simp: has_link_def split: option.splits)

lemma position_index_key_free:
  "(\<exists>d'. position_index key i rs d = Inr d') \<longleftrightarrow> (\<exists>d'. position_index key' i' rs e = Inr d')"
  by (simp add: position_index_returns)

lemma position_index_keys:
  "position_index key i rs d = Inr d' \<Longrightarrow>
     set (keys d') = set (keys d) \<union> {k. \<exists>j<length rs. key_at key rs j = Some k}"
proof (induction rs arbitrary: i d)
  case Nil
  then show ?case by simp
next
  case (Cons r rs)
  from Cons.prems obtain u where u: "link r = Some u"
    and rec: "position_index key (i + 1) rs (dict_setitem d (key u) (i + 1)) = Inr d'"
    by (auto split: option.splits)
  have "{k. \<exists>j<length (r # rs). key_at key (r # rs) j = Some k}
        = insert (key u) {k. \<exists>j<length rs. key_at key rs j = Some k}"
    using u by (auto simp: key_at_def less_Suc_eq_0_disj)
  with Cons.IH [OF rec] show ?case
    by (simp add: keys_dict_setitem)
qed

lemma position_index_distinct:
  "position_index key i rs d = Inr d' \<Longrightarrow> distinct (keys d) \<Longrightarrow> distinct (keys d')"
  by (induction rs arbitrary: i d) (auto simp: distinct_dict_setitem split: option.splits)

lemma position_index_length:
  "position_index key i rs d = Inr d' \<Longrightarrow> length d \<le> length d'"
proof (induction rs arbitrary: i d)
  case Nil
  then show ?case by simp
next
  case (Cons r rs)
  from Cons.prems obtain u where
    rec: "position_index key (i + 1) rs (dict_setitem d (key u) (i + 1)) = Inr d'"
    by (auto split: option.splits)
  have "length d \<le> length (dict_setitem d (key u) (i + 1))"
    by (induction d "key u" "i + 1" rule: dict_setitem.induct) auto
  with Cons.IH [OF rec] show ?case by simp
qed

lemma position_index_nonempty:
  "position_index key i rs [] = Inr d' \<Longrightarrow> (d' = [] \<longleftrightarrow> rs = [])"
proof (cases rs)
  case Nil
  assume "position_index key i rs [] = Inr d'"
  with Nil show ?thesis by simp
next
  case (Cons r rs')
  assume a: "position_index key i rs [] = Inr d'"
  with Cons obtain u where
    rec: "position_index key (i + 1) rs' (dict_setitem [] (key u) (i + 1)) = Inr d'"
    by (auto split: option.splits)
  from position_index_length [OF rec] have "d' \<noteq> []" by auto
  with Cons show ?thesis by simp
qed

lemma position_index_lookup:
  "position_index key i rs d = Inr d' \<Longrightarrow>
     map_of d' k = Some p \<longleftrightarrow>
       (\<exists>j<length rs. p = i + int j + 1 \<and> key_at key rs j = Some k \<and>
          (\<forall>j'. j < j' \<and> j' < length rs \<longrightarrow> key_at key rs j' \<noteq> Some k))
       \<or> (map_of d k = Some p \<and> (\<forall>j<length rs. key_at key rs j \<noteq> Some k))"
proof (induction rs arbitrary: i d)
  case Nil
  then show ?case by simp
next
  case (Cons r rs)
  from Cons.prems obtain u where u: "link r = Some u"
    and rec: "position_index key (i + 1) rs (dict_setitem d (key u) (i + 1)) = Inr d'"
    by (auto split: option.splits)
  let ?d = "dict_setitem d (key u) (i + 1)"
  let ?L = "\<lambda>rs i. (\<exists>j<length rs. p = i + int j + 1 \<and> key_at key rs j = Some k \<and>
          (\<forall>j'. j < j' \<and> j' < length rs \<longrightarrow> key_at key rs j' \<noteq> Some k))"
  let ?N = "\<lambda>rs. (\<forall>j<length rs. key_at key rs j \<noteq> Some k)"
  have IH: "map_of d' k = Some p \<longleftrightarrow> ?L rs (i + 1) \<or> (map_of ?d k = Some p \<and> ?N rs)"
    by (rule Cons.IH [OF rec])
  have k0: "key_at key (r # rs) 0 = Some (key u)" using u by (simp add: key_at_def)
  have kS: "\<And>j. key_at key (r # rs) (Suc j) = key_at key rs j" by (simp add: key_at_def)
  have N: "?N (r # rs) \<longleftrightarrow> key u \<noteq> k \<and> ?N rs"
    by (simp add: All_less_Suc2 k0 kS)
  have L: "?L (r # rs) i \<longleftrightarrow> ?L rs (i + 1) \<or> (key u = k \<and> p = i + 1 \<and> ?N rs)"
  proof -
    have after0: "(\<forall>j'. 0 < j' \<and> j' < length (r # rs) \<longrightarrow> key_at key (r # rs) j' \<noteq> Some k)
                  \<longleftrightarrow> ?N rs"
    proof
      assume a: "\<forall>j'. 0 < j' \<and> j' < length (r # rs) \<longrightarrow> key_at key (r # rs) j' \<noteq> Some k"
      show "?N rs"
      proof (intro allI impI)
        fix j assume "j < length rs"
        with a have "key_at key (r # rs) (Suc j) \<noteq> Some k" by simp
        then show "key_at key rs j \<noteq> Some k" by (simp add: kS)
      qed
    next
      assume a: "?N rs"
      show "\<forall>j'. 0 < j' \<and> j' < length (r # rs) \<longrightarrow> key_at key (r # rs) j' \<noteq> Some k"
      proof (intro allI impI)
        fix j' assume b: "0 < j' \<and> j' < length (r # rs)"
        then obtain m where m: "j' = Suc m" by (cases j') auto
        with a b show "key_at key (r # rs) j' \<noteq> Some k" by (simp add: kS)
      qed
    qed
    have afterS: "\<And>j. (\<forall>j'. Suc j < j' \<and> j' < length (r # rs) \<longrightarrow> key_at key (r # rs) j' \<noteq> Some k)
                  \<longleftrightarrow> (\<forall>j'. j < j' \<and> j' < length rs \<longrightarrow> key_at key rs j' \<noteq> Some k)"
    proof
      fix j
      assume a: "\<forall>j'. Suc j < j' \<and> j' < length (r # rs) \<longrightarrow> key_at key (r # rs) j' \<noteq> Some k"
      show "\<forall>j'. j < j' \<and> j' < length rs \<longrightarrow> key_at key rs j' \<noteq> Some k"
      proof (intro allI impI)
        fix j' assume "j < j' \<and> j' < length rs"
        with a have "key_at key (r # rs) (Suc j') \<noteq> Some k" by simp
        then show "key_at key rs j' \<noteq> Some k" by (simp add: kS)
      qed
    next
      fix j
      assume a: "\<forall>j'. j < j' \<and> j' < length rs \<longrightarrow> key_at key rs j' \<noteq> Some k"
      show "\<forall>j'. Suc j < j' \<and> j' < length (r # rs) \<longrightarrow> key_at key (r # rs) j' \<noteq> Some k"
      proof (intro allI impI)
        fix j' assume b: "Suc j < j' \<and> j' < length (r # rs)"
        then obtain m where m: "j' = Suc m" by (cases j') auto
        with a b show "key_at key (r # rs) j' \<noteq> Some k" by (simp add: kS)
      qed
    qed
    have "?L (r # rs) i \<longleftrightarrow>
            (p = i + 1 \<and> key u = k \<and> ?N rs) \<or>
            (\<exists>j<length rs. p = i + int (Suc j) + 1 \<and> key_at key rs j = Some k \<and>
               (\<forall>j'. j < j' \<and> j' < length rs \<longrightarrow> key_at key rs j' \<noteq> Some k))"
      unfolding length_Cons Ex_less_Suc2 k0 kS
      using after0 afterS by simp
    also have "\<dots> \<longleftrightarrow> ?L rs (i + 1) \<or> (key u = k \<and> p = i + 1 \<and> ?N rs)"
      by (auto simp: add.commute add.left_commute)
    finally show ?thesis .
  qed
  have M: "map_of ?d k = Some p \<longleftrightarrow> (if key u = k then p = i + 1 else map_of d k = Some p)"
    by (auto simp: map_of_dict_setitem)
  show ?case unfolding IH L N M by auto
qed


lemma analyze_InrE:
  assumes "analyze_serp_similarity P r1 r2 = Inr rep"
  obtains dom1 dom2 url1 url2 where
    "position_index (get_domain P) 0 (get_organic r1) [] = Inr dom1"
    "position_index (get_domain P) 0 (get_organic r2) [] = Inr dom2"
    "position_index (\<lambda>url. url) 0 (get_organic r1) [] = Inr url1"
    "position_index (\<lambda>url. url) 0 (get_organic r2) [] = Inr url2"
    "similarity_metrics dom1 dom2 url1 url2 (length (get_organic r1)) (length (get_organic r2))
       = Inr rep"
  using assms
  by (auto simp: analyze_serp_similarity_def Let_def split: sum.splits)

lemma metrics_InrD:
  assumes "similarity_metrics dom1 dom2 url1 url2 n1 n2 = Inr rep"
  shows "common_domains rep = set (keys dom1) \<inter> set (keys dom2)"
    and "common_urls rep = set (keys url1) \<inter> set (keys url2)"
    and "domain_similarity rep =
           of_nat (card (set (keys dom1) \<inter> set (keys dom2))) / of_nat (max (len dom1) (len dom2)) * 100"
    and "url_similarity rep =
           of_nat (card (set (keys url1) \<inter> set (keys url2))) / of_nat (max (len url1) (len url2)) * 100"
    and "position_differences rep = position_differences_of dom1 dom2"
    and "avg_position_diff rep =
           mean_position_diff (set (keys dom1) \<inter> set (keys dom2)) (position_differences_of dom1 dom2)"
    and "position_changes rep = position_changes_of dom1 dom2"
    and "domains1 rep = dom1" and "domains2 rep = dom2"
    and "total_results1 rep = n1" and "total_results2 rep = n2"
    and "0 < max (len dom1) (len dom2)" and "0 < max (len url1) (len url2)"
  using assms
  by (auto simp: similarity_metrics_def Let_def split: if_splits)

lemma metrics_returns:
  "0 < max (len dom1) (len dom2) \<Longrightarrow> 0 < max (len url1) (len url2) \<Longrightarrow>
     \<exists>rep. similarity_metrics dom1 dom2 url1 url2 n1 n2 = Inr rep"
  by (auto simp: similarity_metrics_def Let_def)

lemma analyze_returns:
  "(\<exists>rep. analyze_serp_similarity P r1 r2 = Inr rep) \<longleftrightarrow>
     list_all has_link (get_organic r1) \<and> list_all has_link (get_organic r2) \<and>
     (get_organic r1 \<noteq> [] \<or> get_organic r2 \<noteq> [])"
proof
  assume "\<exists>rep. analyze_serp_similarity P r1 r2 = Inr rep"
  then obtain rep where "analyze_serp_similarity P r1 r2 = Inr rep" ..
  then obtain dom1 dom2 url1 url2 where
    i1: "position_index (get_domain P) 0 (get_organic r1) [] = Inr dom1" and
    i2: "position_index (get_domain P) 0 (get_organic r2) [] = Inr dom2" and
    m: "similarity_metrics dom1 dom2 url1 url2
          (length (get_organic r1)) (length (get_organic r2)) = Inr rep"
    by (rule analyze_InrE)
  from i1 have l1: "list_all has_link (get_organic r1)"
    using position_index_returns by blast
  from i2 have l2: "list_all has_link (get_organic r2)"
    using position_index_returns by blast
  from metrics_InrD(12) [OF m] have "dom1 \<noteq> [] \<or> dom2 \<noteq> []"
    by (auto simp: len_def)
  with position_index_nonempty [OF i1] position_index_nonempty [OF i2]
  have "get_organic r1 \<noteq> [] \<or> get_organic r2 \<noteq> []" by simp
  with l1 l2 show "list_all has_link (get_organic r1) \<and> list_all has_link (get_organic r2) \<and>
     (get_organic r1 \<noteq> [] \<or> get_organic r2 \<noteq> [])" by simp
next
  assume a: "list_all has_link (get_organic r1) \<and> list_all has_link (get_organic r2) \<and>
     (get_organic r1 \<noteq> [] \<or> get_organic r2 \<noteq> [])"
  from a obtain dom1 where i1: "position_index (get_domain P) 0 (get_organic r1) [] = Inr dom1"
    using position_index_returns by blast
  from a obtain dom2 where i2: "position_index (get_domain P) 0 (get_organic r2) [] = Inr dom2"
    using position_index_returns by blast
  from a obtain url1 where i3: "position_index (\<lambda>url. url) 0 (get_organic r1) [] = Inr url1"
    using position_index_returns by blast
  from a obtain url2 where i4: "position_index (\<lambda>url. url) 0 (get_organic r2) [] = Inr url2"
    using position_index_returns by blast
  from a position_index_nonempty [OF i1] position_index_nonempty [OF i2]
  have nd: "0 < max (len dom1) (len dom2)" by (auto simp: len_def less_max_iff_disj)
  from a position_index_nonempty [OF i3] position_index_nonempty [OF i4]
  have nu: "0 < max (len url1) (len url2)" by (auto simp: len_def less_max_iff_disj)
  from metrics_returns [OF nd nu] obtain rep where
    "similarity_metrics dom1 dom2 url1 url2
       (length (get_organic r1)) (length (get_organic r2)) = Inr rep"
    by blast
  with i1 i2 i3 i4 show "\<exists>rep. analyze_serp_similarity P r1 r2 = Inr rep"
    by (simp add: analyze_serp_similarity_def Let_def)
qed

lemma ratio_bounds:
  fixes c m :: nat
  assumes "c \<le> m" "0 < m"
  shows "0 \<le> (of_nat c / of_nat m * 100 :: rat)" and "(of_nat c / of_nat m * 100 :: rat) \<le> 100"
proof -
  show "0 \<le> (of_nat c / of_nat m * 100 :: rat)" by simp
  have "(of_nat c :: rat) \<le> of_nat m" using assms by simp
  then have "(of_nat c / of_nat m :: rat) \<le> 1" using assms by (simp add: divide_le_eq_1)
  then have "(of_nat c / of_nat m :: rat) * 100 \<le> 1 * 100"
    by (rule mult_right_mono) simp
  then show "(of_nat c / of_nat m * 100 :: rat) \<le> 100" by simp
qed

lemma card_common_le: "card (set (keys d1) \<inter> set (keys d2)) \<le> max (len d1) (len d2)"
proof -
  have "card (set (keys d1) \<inter> set (keys d2)) \<le> card (set (keys d1))"
    by (rule card_mono) auto
  also have "\<dots> \<le> length (keys d1)" by (rule card_length)
  also have "\<dots> \<le> max (len d1) (len d2)" by (simp add: keys_def len_def)
  finally show ?thesis .
qed

lemma common_lookup:
  "domain \<in> set (keys dom1) \<inter> set (keys dom2) \<Longrightarrow>
     \<exists>p1 p2. map_of dom1 domain = Some p1 \<and> map_of dom2 domain = Some p2"
proof -
  assume a: "domain \<in> set (keys dom1) \<inter> set (keys dom2)"
  then have "domain \<in> fst ` set dom1" "domain \<in> fst ` set dom2" by (auto simp: keys_def)
  then have "map_of dom1 domain \<noteq> None" "map_of dom2 domain \<noteq> None"
    by (simp_all add: map_of_eq_None_iff)
  then show ?thesis by auto
qed

lemma position_differences_of_Some:
  "position_differences_of dom1 dom2 domain = Some v \<longleftrightarrow>
     (\<exists>p1 p2. map_of dom1 domain = Some p1 \<and> map_of dom2 domain = Some p2 \<and> v = \<bar>p1 - p2\<bar>)"
proof (cases "domain \<in> set (keys dom1) \<inter> set (keys dom2)")
  case True
  from common_lookup [OF True] obtain p1 p2 where
    "map_of dom1 domain = Some p1" "map_of dom2 domain = Some p2" by blast
  with True show ?thesis by (auto simp: position_differences_of_def)
next
  case False
  then have "map_of dom1 domain = None \<or> map_of dom2 domain = None"
    by (auto simp: keys_def map_of_eq_None_iff)
  with False show ?thesis by (auto simp: position_differences_of_def)
qed

lemma position_changes_of_Some:
  "position_changes_of dom1 dom2 domain = Some c \<longleftrightarrow>
     (\<exists>p1 p2. map_of dom1 domain = Some p1 \<and> map_of dom2 domain = Some p2 \<and> 2 < \<bar>p1 - p2\<bar> \<and>
        c = \<lparr>pos1 = p1, pos2 = p2, diff = p2 - p1\<rparr>)"
proof (cases "domain \<in> set (keys dom1) \<inter> set (keys dom2)")
  case True
  from common_lookup [OF True] obtain p1 p2 where
    "map_of dom1 domain = Some p1" "map_of dom2 domain = Some p2" by blast
  with True show ?thesis by (auto simp: position_changes_of_def)
next
  case False
  then have "map_of dom1 domain = None \<or> map_of dom2 domain = None"
    by (auto simp: keys_def map_of_eq_None_iff)
  with False show ?thesis by (auto simp: position_changes_of_def)
qed

lemma dom_position_differences_of:
  "dom (position_differences_of dom1 dom2) = set (keys dom1) \<inter> set (keys dom2)"
proof -
  have "\<And>d. d \<in> dom (position_differences_of dom1 dom2) \<longleftrightarrow> d \<in> set (keys dom1) \<inter> set (keys dom2)"
  proof -
    fix d
    show "d \<in> dom (position_differences_of dom1 dom2) \<longleftrightarrow> d \<in> set (keys dom1) \<inter> set (keys dom2)"
    proof (cases "d \<in> set (keys dom1) \<inter> set (keys dom2)")
      case True
      from common_lookup [OF True] True show ?thesis
        by (auto simp: position_differences_of_def dom_def)
    next
      case False
      then show ?thesis by (auto simp: position_differences_of_def dom_def)
    qed
  qed
  then show ?thesis by blast
qed

lemma index_lookup_last:
  "position_index key 0 rs [] = Inr d' \<Longrightarrow>
     map_of d' k = Some p \<longleftrightarrow> last_occurrence key rs k p"
  using position_index_lookup [of key 0 rs "[]" d' k p]
  by (simp add: last_occurrence_def)

lemma position_changes_of_same: "position_changes_of d d = Map.empty"
proof
  fix x
  have "\<And>c. position_changes_of d d x \<noteq> Some c"
    by (auto simp: position_changes_of_Some)
  then show "position_changes_of d d x = None" by (cases "position_changes_of d d x") auto
qed

subsection \<open>Rounding\<close>

lemma pow2_power_int: "pow2 k = power_int 2 k"
  by (simp add: pow2_def power_int_def inverse_eq_divide power_divide)

lemma pow2_pos: "0 < pow2 k"
  by (simp add: pow2_power_int)

lemma pow2_add: "pow2 (i + j) = pow2 i * pow2 j"
  by (simp add: pow2_power_int power_int_add)

lemma pow2_nat: "pow2 (int n) = 2 ^ n"
  by (simp add: pow2_power_int)

lemma floor_log2_bounds:
  assumes "0 < q"
  shows "pow2 (floor_log2 q) \<le> q" and "q < pow2 (floor_log2 q + 1)"
proof -
  obtain a b where ab: "quotient_of q = (a, b)" by (cases "quotient_of q")
  then have b: "0 < b" by (rule quotient_of_denom_pos)
  from ab have q: "q = of_int a / of_int b" by (rule quotient_of_div)
  with assms b have a: "0 < a" by (simp add: zero_less_divide_iff)
  define la where "la = bitlen a"
  define lb where "lb = bitlen b"
  from bitlen_bounds [OF a] have a1: "2 ^ nat (la - 1) \<le> a" and a2: "a < 2 ^ nat la"
    by (simp_all add: la_def)
  from bitlen_bounds [OF b] have b1: "2 ^ nat (lb - 1) \<le> b" and b2: "b < 2 ^ nat lb"
    by (simp_all add: lb_def)
  have la: "1 \<le> la" using a by (simp add: la_def bitlen_alt_def)
  have lb: "1 \<le> lb" using b by (simp add: lb_def bitlen_alt_def)
  have ra1: "pow2 (la - 1) \<le> of_int a"
  proof -
    have "(of_int (2 ^ nat (la - 1)) :: rat) \<le> of_int a" using a1 by (simp only: of_int_le_iff)
    moreover have "pow2 (la - 1) = 2 ^ nat (la - 1)" using la by (simp add: pow2_def)
    ultimately show ?thesis by simp
  qed
  have ra2: "of_int a < pow2 la"
  proof -
    have "(of_int a :: rat) < of_int (2 ^ nat la)" using a2 by (simp only: of_int_less_iff)
    moreover have "pow2 la = 2 ^ nat la" using la by (simp add: pow2_def)
    ultimately show ?thesis by simp
  qed
  have rb1: "pow2 (lb - 1) \<le> of_int b"
  proof -
    have "(of_int (2 ^ nat (lb - 1)) :: rat) \<le> of_int b" using b1 by (simp only: of_int_le_iff)
    moreover have "pow2 (lb - 1) = 2 ^ nat (lb - 1)" using lb by (simp add: pow2_def)
    ultimately show ?thesis by simp
  qed
  have rb2: "of_int b < pow2 lb"
  proof -
    have "(of_int b :: rat) < of_int (2 ^ nat lb)" using b2 by (simp only: of_int_less_iff)
    moreover have "pow2 lb = 2 ^ nat lb" using lb by (simp add: pow2_def)
    ultimately show ?thesis by simp
  qed
  have bpos: "(0::rat) < of_int b" using b by simp
  define k where "k = la - lb"
  have lo: "pow2 (k - 1) \<le> q"
  proof -
    have "pow2 (k - 1) * of_int b \<le> pow2 (k - 1) * pow2 lb"
      using rb2 pow2_pos [of "k - 1"] by (simp add: less_imp_le)
    also have "\<dots> = pow2 (la - 1)" by (simp add: pow2_add [symmetric] k_def)
    also have "\<dots> \<le> of_int a" by (rule ra1)
    finally show ?thesis using bpos by (simp add: q pos_le_divide_eq)
  qed
  have hi: "q < pow2 (k + 1)"
  proof -
    have "of_int a < pow2 la" by (rule ra2)
    also have "\<dots> = pow2 (k + 1) * pow2 (lb - 1)" by (simp add: pow2_add [symmetric] k_def)
    also have "\<dots> \<le> pow2 (k + 1) * of_int b"
      using rb1 pow2_pos [of "k + 1"] by simp
    finally show ?thesis using bpos by (simp add: q pos_divide_less_eq)
  qed
  have fl: "floor_log2 q = (if pow2 k \<le> q then k else k - 1)"
    by (simp add: floor_log2_def ab k_def la_def lb_def Let_def)
  show "pow2 (floor_log2 q) \<le> q" using lo by (simp add: fl)
  show "q < pow2 (floor_log2 q + 1)" using hi by (auto simp: fl not_le)
qed

lemma round_half_even_error: "\<bar>of_int (round_half_even x) - x\<bar> \<le> (1 / 2 :: rat)"
proof -
  define f where "f = \<lfloor>x\<rfloor>"
  have "of_int f \<le> x" "x < of_int f + 1" by (simp_all add: f_def) linarith
  then show ?thesis
    unfolding round_half_even_def Let_def f_def [symmetric]
    by (auto simp: abs_le_iff)
qed

lemma binary64_round_error:
  assumes "0 < q"
  shows "\<bar>binary64_round q - q\<bar> \<le> q / 2 ^ 53"
proof -
  define e where "e = floor_log2 q"
  define ulp where "ulp = pow2 (e - 52)"
  have up: "0 < ulp" by (simp add: ulp_def pow2_pos)
  from assms have b: "binary64_round q = of_int (round_half_even (q / ulp)) * ulp"
    by (simp add: binary64_round_def Let_def ulp_def e_def)
  have "\<bar>binary64_round q - q\<bar> = \<bar>of_int (round_half_even (q / ulp)) - q / ulp\<bar> * ulp"
  proof -
    have "binary64_round q - q = (of_int (round_half_even (q / ulp)) - q / ulp) * ulp"
      using up by (simp add: b algebra_simps)
    then show ?thesis using up by (simp add: abs_mult)
  qed
  also have "\<dots> \<le> 1 / 2 * ulp"
    by (rule mult_right_mono [OF round_half_even_error]) (use up in simp)
  also have "\<dots> = pow2 e / 2 ^ 53"
  proof -
    have "pow2 e = pow2 (e - 52) * pow2 52" by (simp add: pow2_add [symmetric])
    also have "pow2 52 = 2 ^ 52" using pow2_nat [of 52] by simp
    finally show ?thesis by (simp add: ulp_def)
  qed
  also have "\<dots> \<le> q / 2 ^ 53"
    using floor_log2_bounds(1) [OF assms] by (simp add: e_def divide_right_mono)
  finally show ?thesis .
qed

lemma binary64_round_zero: "binary64_round 0 = 0"
  by (simp add: binary64_round_def)

lemma binary64_round_close:
  assumes "0 \<le> q"
  shows "\<bar>binary64_round q - q\<bar> \<le> q / 2 ^ 53"
proof (cases "q = 0")
  case True
  then show ?thesis by (simp add: binary64_round_zero)
next
  case False
  with assms have "0 < q" by simp
  then show ?thesis by (rule binary64_round_error)
qed

subsection \<open>The mean of the position differences\<close>

lemma position_differences_of_nonneg:
  "position_differences_of dom1 dom2 domain = Some v \<Longrightarrow> 0 \<le> v"
  by (auto simp: position_differences_of_Some)

lemma avg_of_report:
  assumes "analyze_serp_similarity netloc_of results1 results2 = Inr rep"
  shows "dom (position_differences rep) = common_domains rep"
    and "common_domains rep = {} \<Longrightarrow> avg_position_diff rep = 0"
    and "common_domains rep \<noteq> {} \<Longrightarrow>
           avg_position_diff rep =
             binary64_round
               (of_int (\<Sum>domain\<in>dom (position_differences rep).
                          the (position_differences rep domain))
                / of_nat (card (dom (position_differences rep))))"
    and "0 \<le> (\<Sum>domain\<in>dom (position_differences rep). the (position_differences rep domain))"
proof -
  from assms obtain dom1 dom2 url1 url2 where
    m: "similarity_metrics dom1 dom2 url1 url2
          (length (get_organic results1)) (length (get_organic results2)) = Inr rep"
    by (rule analyze_InrE)
  note d = metrics_InrD [OF m]
  show dom_pd: "dom (position_differences rep) = common_domains rep"
    unfolding d(5) d(1) by (rule dom_position_differences_of)
  have s: "(\<Sum>domain\<in>common_domains rep. case position_differences rep domain of Some v \<Rightarrow> v | None \<Rightarrow> 0)
         = (\<Sum>domain\<in>common_domains rep. the (position_differences rep domain))"
  proof (rule sum.cong)
    fix x assume "x \<in> common_domains rep"
    with dom_pd obtain v where "position_differences rep x = Some v" by blast
    then show "(case position_differences rep x of Some v \<Rightarrow> v | None \<Rightarrow> 0)
                 = the (position_differences rep x)" by simp
  qed simp
  have avg: "avg_position_diff rep = mean_position_diff (common_domains rep) (position_differences rep)"
    by (simp add: d(6) d(1) d(5))
  show "common_domains rep = {} \<Longrightarrow> avg_position_diff rep = 0"
    by (simp add: avg mean_position_diff_def)
  show "common_domains rep \<noteq> {} \<Longrightarrow>
           avg_position_diff rep =
             binary64_round
               (of_int (\<Sum>domain\<in>dom (position_differences rep).
                          the (position_differences rep domain))
                / of_nat (card (dom (position_differences rep))))"
    unfolding dom_pd avg mean_position_diff_def s by simp
  show "0 \<le> (\<Sum>domain\<in>dom (position_differences rep). the (position_differences rep domain))"
  proof (rule sum_nonneg)
    fix x assume "x \<in> dom (position_differences rep)"
    then obtain v where v: "position_differences rep x = Some v" by blast
    then have "0 \<le> v" unfolding d(5) by (rule position_differences_of_nonneg)
    with v show "0 \<le> the (position_differences rep x)" by simp
  qed
qed

section \<open>The claims\<close>

subsection \<open>C1: which occurrence of a duplicate is retained\<close>

text \<open>
  Claim C1 says that the domain index and the URL index retain, for a key that occurs
  several times in a result set, the position of its earliest occurrence. The code
  assigns to the dictionary once for every result, so a later occurrence overwrites the
  position of an earlier one. In \<open>duplicate_A\<close> the domain \<^verbatim>\<open>a.com\<close> is at the positions 1, 2
  and 3 and the URL \<^verbatim>\<open>https://a.com/1\<close> at 1 and 3: both indices hold 3, where first-seen
  would give 1, and the position difference with \<open>duplicate_B\<close> is 2, not 0.
\<close>

theorem duplicates_counterexample:
  "(case analyze_serp_similarity py_netloc duplicate_A duplicate_B of
      Inl e \<Rightarrow> False
    | Inr rep \<Rightarrow> map_of (domains1 rep) ''a.com'' = Some 3
               \<and> position_differences rep ''a.com'' = Some 2)
   \<and> spec_first_seen (get_domain py_netloc) 0 (get_organic duplicate_A) ''a.com'' = Some 1
   \<and> position_index (\<lambda>url. url) 0 (get_organic duplicate_A) []
       = Inr [(''https://a.com/1'', 3), (''https://a.com/2'', 2)]
   \<and> spec_first_seen (\<lambda>url. url) 0 (get_organic duplicate_A) ''https://a.com/1'' = Some 1"
  by code_simp

text \<open>
  Claim C1, amended. For every pair of inputs on which the analysis returns a report, the
  domain index of each result set maps a domain to the position of its last occurrence
  in that set, the URL index maps a URL to the position of its last occurrence, and the
  position differences are computed from these last positions: an earlier occurrence of
  a duplicate is never used.
\<close>

theorem index_keeps_last_occurrence:
  assumes "analyze_serp_similarity netloc_of results1 results2 = Inr rep"
  shows "(\<forall>domain p. map_of (domains1 rep) domain = Some p \<longleftrightarrow>
            last_occurrence (get_domain netloc_of) (get_organic results1) domain p)
       \<and> (\<forall>domain p. map_of (domains2 rep) domain = Some p \<longleftrightarrow>
            last_occurrence (get_domain netloc_of) (get_organic results2) domain p)
       \<and> (\<exists>urls1 urls2.
            position_index (\<lambda>url. url) 0 (get_organic results1) [] = Inr urls1 \<and>
            position_index (\<lambda>url. url) 0 (get_organic results2) [] = Inr urls2 \<and>
            common_urls rep = set (keys urls1) \<inter> set (keys urls2) \<and>
            (\<forall>url p. map_of urls1 url = Some p \<longleftrightarrow>
               last_occurrence (\<lambda>url. url) (get_organic results1) url p) \<and>
            (\<forall>url p. map_of urls2 url = Some p \<longleftrightarrow>
               last_occurrence (\<lambda>url. url) (get_organic results2) url p))
       \<and> (\<forall>domain v. position_differences rep domain = Some v \<longleftrightarrow>
            (\<exists>p1 p2. last_occurrence (get_domain netloc_of) (get_organic results1) domain p1 \<and>
                     last_occurrence (get_domain netloc_of) (get_organic results2) domain p2 \<and>
                     v = \<bar>p1 - p2\<bar>))"
proof -
  from assms obtain dom1 dom2 url1 url2 where
    i1: "position_index (get_domain netloc_of) 0 (get_organic results1) [] = Inr dom1" and
    i2: "position_index (get_domain netloc_of) 0 (get_organic results2) [] = Inr dom2" and
    i3: "position_index (\<lambda>url. url) 0 (get_organic results1) [] = Inr url1" and
    i4: "position_index (\<lambda>url. url) 0 (get_organic results2) [] = Inr url2" and
    m: "similarity_metrics dom1 dom2 url1 url2
          (length (get_organic results1)) (length (get_organic results2)) = Inr rep"
    by (rule analyze_InrE)
  note d = metrics_InrD [OF m]
  have A: "\<forall>domain p. map_of (domains1 rep) domain = Some p \<longleftrightarrow>
            last_occurrence (get_domain netloc_of) (get_organic results1) domain p"
    unfolding d(8) using index_lookup_last [OF i1] by blast
  have B: "\<forall>domain p. map_of (domains2 rep) domain = Some p \<longleftrightarrow>
            last_occurrence (get_domain netloc_of) (get_organic results2) domain p"
    unfolding d(9) using index_lookup_last [OF i2] by blast
  have C: "\<exists>urls1 urls2.
            position_index (\<lambda>url. url) 0 (get_organic results1) [] = Inr urls1 \<and>
            position_index (\<lambda>url. url) 0 (get_organic results2) [] = Inr urls2 \<and>
            common_urls rep = set (keys urls1) \<inter> set (keys urls2) \<and>
            (\<forall>url p. map_of urls1 url = Some p \<longleftrightarrow>
               last_occurrence (\<lambda>url. url) (get_organic results1) url p) \<and>
            (\<forall>url p. map_of urls2 url = Some p \<longleftrightarrow>
               last_occurrence (\<lambda>url. url) (get_organic results2) url p)"
    using i3 i4 d(2) index_lookup_last [OF i3] index_lookup_last [OF i4] by blast
  have D: "\<forall>domain v. position_differences rep domain = Some v \<longleftrightarrow>
            (\<exists>p1 p2. last_occurrence (get_domain netloc_of) (get_organic results1) domain p1 \<and>
                     last_occurrence (get_domain netloc_of) (get_organic results2) domain p2 \<and>
                     v = \<bar>p1 - p2\<bar>)"
    unfolding d(5) position_differences_of_Some
    using index_lookup_last [OF i1] index_lookup_last [OF i2] by simp
  from A B C D show ?thesis by blast
qed

theorem index_keeps_last_occurrence_witness:
  "\<exists>rep. analyze_serp_similarity py_netloc duplicate_A duplicate_B = Inr rep \<and>
         map_of (domains1 rep) ''a.com'' = Some 3 \<and>
         last_occurrence (get_domain py_netloc) (get_organic duplicate_A) ''a.com'' 3 \<and>
         last_occurrence (get_domain py_netloc) (get_organic duplicate_B) ''a.com'' 1 \<and>
         position_differences rep ''a.com'' = Some 2"
proof -
  have "case analyze_serp_similarity py_netloc duplicate_A duplicate_B of
          Inl e \<Rightarrow> False
        | Inr rep \<Rightarrow> map_of (domains1 rep) ''a.com'' = Some 3
                   \<and> map_of (domains2 rep) ''a.com'' = Some 1
                   \<and> position_differences rep ''a.com'' = Some 2"
    by code_simp
  then obtain rep where r: "analyze_serp_similarity py_netloc duplicate_A duplicate_B = Inr rep"
    and c: "map_of (domains1 rep) ''a.com'' = Some 3" "map_of (domains2 rep) ''a.com'' = Some 1"
           "position_differences rep ''a.com'' = Some 2"
    by (auto split: sum.splits)
  from index_keeps_last_occurrence [OF r] c
  have "last_occurrence (get_domain py_netloc) (get_organic duplicate_A) ''a.com'' 3"
       "last_occurrence (get_domain py_netloc) (get_organic duplicate_B) ''a.com'' 1"
    by blast+
  with r c show ?thesis by blast
qed

subsection \<open>C2: both result sets empty\<close>

text \<open>
  Claim C2. When both inputs are empty, the analysis is to return similarity ratios of 0
  and not to raise a division-by-zero error. The code divides by
  \<^verbatim>\<open>max(len(domains1), len(domains2))\<close> without a guard, although the next line guards
  the mean of an empty collection: on two inputs without results, whether the key
  \<^verbatim>\<open>organic\<close> is missing or its list is empty, it raises \<^verbatim>\<open>ZeroDivisionError\<close>.
\<close>

theorem both_empty_raises:
  "analyze_serp_similarity netloc_of no_organic no_organic = Inl ZeroDivisionError
   \<and> analyze_serp_similarity netloc_of empty_organic empty_organic = Inl ZeroDivisionError
   \<and> analyze_serp_similarity netloc_of no_organic empty_organic = Inl ZeroDivisionError
   \<and> analyze_serp_similarity netloc_of empty_organic no_organic = Inl ZeroDivisionError"
  by (simp add: analyze_serp_similarity_def similarity_metrics_def get_organic_def
        no_organic_def empty_organic_def len_def)

subsection \<open>C3: the similarity ratios lie between 0 and 100\<close>

text \<open>
  Claim C3. For all pairs of input result sets, the \<^verbatim>\<open>domain_similarity\<close> and
  \<^verbatim>\<open>url_similarity\<close> values returned by the analysis lie in the closed interval from 0 to
  100: whenever the function returns a report, both ratios are at least 0 and at most 100.
\<close>

theorem similarity_in_range:
  assumes "analyze_serp_similarity netloc_of results1 results2 = Inr rep"
  shows "0 \<le> domain_similarity rep \<and> domain_similarity rep \<le> 100 \<and>
         0 \<le> url_similarity rep \<and> url_similarity rep \<le> 100"
proof -
  from assms obtain dom1 dom2 url1 url2 where
    m: "similarity_metrics dom1 dom2 url1 url2
          (length (get_organic results1)) (length (get_organic results2)) = Inr rep"
    by (rule analyze_InrE)
  note d = metrics_InrD [OF m]
  have "0 \<le> domain_similarity rep" "domain_similarity rep \<le> 100"
    unfolding d(3) by (rule ratio_bounds [OF card_common_le d(12)])+
  moreover have "0 \<le> url_similarity rep" "url_similarity rep \<le> 100"
    unfolding d(4) by (rule ratio_bounds [OF card_common_le d(13)])+
  ultimately show ?thesis by simp
qed

theorem similarity_in_range_witness:
  "\<exists>rep. analyze_serp_similarity py_netloc scenario_A scenario_B = Inr rep \<and>
         0 \<le> domain_similarity rep \<and> domain_similarity rep \<le> 100 \<and>
         0 \<le> url_similarity rep \<and> url_similarity rep \<le> 100"
proof -
  have "\<exists>rep. analyze_serp_similarity py_netloc scenario_A scenario_B = Inr rep"
    by (simp add: analyze_returns get_organic_def scenario_A_def scenario_B_def
          has_link_def result_with_link_def)
  then obtain rep where r: "analyze_serp_similarity py_netloc scenario_A scenario_B = Inr rep" ..
  from similarity_in_range [OF r] r show ?thesis by blast
qed

subsection \<open>C4: swapping the arguments\<close>

text \<open>
  Claim C4. Swapping the two arguments leaves the sets of common domains and of common
  URLs unchanged, the swapped call reports position changes for the same domains, and for
  every domain in the position changes the \<^verbatim>\<open>diff\<close> of the swapped call is the negation
  of the \<^verbatim>\<open>diff\<close> of the original call.
\<close>

theorem swap_arguments:
  assumes "analyze_serp_similarity netloc_of results1 results2 = Inr rep"
  shows "\<exists>rep'. analyze_serp_similarity netloc_of results2 results1 = Inr rep' \<and>
           common_domains rep' = common_domains rep \<and>
           common_urls rep' = common_urls rep \<and>
           dom (position_changes rep') = dom (position_changes rep) \<and>
           (\<forall>domain c. position_changes rep domain = Some c \<longrightarrow>
              (\<exists>c'. position_changes rep' domain = Some c' \<and> diff c' = - diff c))"
proof -
  from assms obtain dom1 dom2 url1 url2 where
    i1: "position_index (get_domain netloc_of) 0 (get_organic results1) [] = Inr dom1" and
    i2: "position_index (get_domain netloc_of) 0 (get_organic results2) [] = Inr dom2" and
    i3: "position_index (\<lambda>url. url) 0 (get_organic results1) [] = Inr url1" and
    i4: "position_index (\<lambda>url. url) 0 (get_organic results2) [] = Inr url2" and
    m: "similarity_metrics dom1 dom2 url1 url2
          (length (get_organic results1)) (length (get_organic results2)) = Inr rep"
    by (rule analyze_InrE)
  note d = metrics_InrD [OF m]
  from d(12) d(13) have "0 < max (len dom2) (len dom1)" "0 < max (len url2) (len url1)"
    by (simp_all add: max.commute)
  from metrics_returns [OF this] obtain rep' where
    m': "similarity_metrics dom2 dom1 url2 url1
          (length (get_organic results2)) (length (get_organic results1)) = Inr rep'"
    by blast
  note d' = metrics_InrD [OF m']
  from i1 i2 i3 i4 m' have r': "analyze_serp_similarity netloc_of results2 results1 = Inr rep'"
    by (simp add: analyze_serp_similarity_def Let_def)
  have c1: "common_domains rep' = common_domains rep" unfolding d(1) d'(1) by (rule Int_commute)
  have c2: "common_urls rep' = common_urls rep" unfolding d(2) d'(2) by (rule Int_commute)
  have c3: "\<And>domain c. position_changes rep domain = Some c \<Longrightarrow>
              (\<exists>c'. position_changes rep' domain = Some c' \<and> diff c' = - diff c)"
    unfolding d(7) d'(7) by (auto simp: position_changes_of_Some)
  have c3': "\<And>domain c. position_changes rep' domain = Some c \<Longrightarrow>
              (\<exists>c'. position_changes rep domain = Some c')"
    unfolding d(7) d'(7) by (auto simp: position_changes_of_Some)
  have c4: "dom (position_changes rep') = dom (position_changes rep)"
    using c3 c3' by (fastforce simp: dom_def)
  from r' c1 c2 c3 c4 show ?thesis by blast
qed

theorem swap_arguments_witness:
  "\<exists>rep rep'. analyze_serp_similarity py_netloc moved_A moved_B = Inr rep \<and>
         analyze_serp_similarity py_netloc moved_B moved_A = Inr rep' \<and>
         common_domains rep' = common_domains rep \<and>
         common_urls rep' = common_urls rep \<and>
         position_changes rep ''d.com'' = Some \<lparr>pos1 = 4, pos2 = 1, diff = - 3\<rparr> \<and>
         (\<exists>c'. position_changes rep' ''d.com'' = Some c' \<and> diff c' = 3)"
proof -
  have "case analyze_serp_similarity py_netloc moved_A moved_B of
          Inl e \<Rightarrow> False
        | Inr rep \<Rightarrow> position_changes rep ''d.com'' = Some \<lparr>pos1 = 4, pos2 = 1, diff = - 3\<rparr>"
    by code_simp
  then obtain rep where r: "analyze_serp_similarity py_netloc moved_A moved_B = Inr rep"
    and c: "position_changes rep ''d.com'' = Some \<lparr>pos1 = 4, pos2 = 1, diff = - 3\<rparr>"
    by (auto split: sum.splits)
  from swap_arguments [OF r] obtain rep' where
    r': "analyze_serp_similarity py_netloc moved_B moved_A = Inr rep'" and
    s: "common_domains rep' = common_domains rep" "common_urls rep' = common_urls rep" and
    n: "\<forall>domain c. position_changes rep domain = Some c \<longrightarrow>
              (\<exists>c'. position_changes rep' domain = Some c' \<and> diff c' = - diff c)"
    by blast
  from n c have "\<exists>c'. position_changes rep' ''d.com'' = Some c' \<and> diff c' = 3" by fastforce
  with r r' s c show ?thesis by blast
qed

subsection \<open>C5: identical result lists\<close>

text \<open>
  Claim C5 says that for identical ordered result lists both similarity ratios are 100.
  For two empty lists this fails: no report with these ratios is returned (the division
  of C2 raises).
\<close>

theorem identical_empty_lists_counterexample:
  "\<not> (case analyze_serp_similarity py_netloc empty_organic empty_organic of
         Inl e \<Rightarrow> False
       | Inr rep \<Rightarrow> domain_similarity rep = 100 \<and> url_similarity rep = 100)"
  by (simp add: analyze_serp_similarity_def similarity_metrics_def get_organic_def
        empty_organic_def len_def)

text \<open>
  Claim C5, amended. If the two inputs hold the same non-empty ordered list of results,
  each with a link, the analysis returns a report with domain similarity 100 and URL
  similarity 100, every position difference is 0, and there is no position change.
\<close>

theorem identical_lists:
  assumes same: "get_organic results1 = get_organic results2"
      and nonempty: "get_organic results1 \<noteq> []"
      and links: "list_all has_link (get_organic results1)"
  shows "\<exists>rep. analyze_serp_similarity netloc_of results1 results2 = Inr rep \<and>
           domain_similarity rep = 100 \<and> url_similarity rep = 100 \<and>
           (\<forall>domain v. position_differences rep domain = Some v \<longrightarrow> v = 0) \<and>
           position_changes rep = Map.empty"
proof -
  from assms have "\<exists>rep. analyze_serp_similarity netloc_of results1 results2 = Inr rep"
    by (simp add: analyze_returns)
  then obtain rep where r: "analyze_serp_similarity netloc_of results1 results2 = Inr rep" ..
  then obtain dom1 dom2 url1 url2 where
    i1: "position_index (get_domain netloc_of) 0 (get_organic results1) [] = Inr dom1" and
    i2: "position_index (get_domain netloc_of) 0 (get_organic results2) [] = Inr dom2" and
    i3: "position_index (\<lambda>url. url) 0 (get_organic results1) [] = Inr url1" and
    i4: "position_index (\<lambda>url. url) 0 (get_organic results2) [] = Inr url2" and
    m: "similarity_metrics dom1 dom2 url1 url2
          (length (get_organic results1)) (length (get_organic results2)) = Inr rep"
    by (rule analyze_InrE)
  from i1 i2 same have dd: "dom2 = dom1" by simp
  from i3 i4 same have uu: "url2 = url1" by simp
  note d = metrics_InrD [OF m [unfolded dd uu]]
  have ratio: "\<And>e :: int pydict. distinct (keys e) \<Longrightarrow> 0 < max (len e) (len e) \<Longrightarrow>
          (of_nat (card (set (keys e) \<inter> set (keys e))) / of_nat (max (len e) (len e)) * 100 :: rat) = 100"
  proof -
    fix e :: "int pydict"
    assume di: "distinct (keys e)" and pos: "0 < max (len e) (len e)"
    from distinct_card [OF di] have "card (set (keys e) \<inter> set (keys e)) = len e"
      by (simp add: len_def keys_def)
    with pos show "(of_nat (card (set (keys e) \<inter> set (keys e))) / of_nat (max (len e) (len e)) * 100 :: rat) = 100"
      by simp
  qed
  have dist1: "distinct (keys dom1)"
    by (rule position_index_distinct [OF i1]) (simp add: keys_def)
  have dist2: "distinct (keys url1)"
    by (rule position_index_distinct [OF i3]) (simp add: keys_def)
  have "domain_similarity rep = 100" unfolding d(3) by (rule ratio [OF dist1 d(12)])
  moreover have "url_similarity rep = 100" unfolding d(4) by (rule ratio [OF dist2 d(13)])
  moreover have "\<forall>domain v. position_differences rep domain = Some v \<longrightarrow> v = 0"
    unfolding d(5) by (auto simp: position_differences_of_Some)
  moreover have "position_changes rep = Map.empty"
    unfolding d(7) by (rule position_changes_of_same)
  ultimately show ?thesis using r by blast
qed

theorem identical_lists_witness:
  "get_organic scenario_A = get_organic scenario_A \<and> get_organic scenario_A \<noteq> [] \<and>
   list_all has_link (get_organic scenario_A) \<and>
   (\<exists>rep. analyze_serp_similarity py_netloc scenario_A scenario_A = Inr rep \<and>
           domain_similarity rep = 100 \<and> url_similarity rep = 100 \<and>
           (\<forall>domain v. position_differences rep domain = Some v \<longrightarrow> v = 0) \<and>
           position_changes rep = Map.empty)"
proof -
  have h2: "get_organic scenario_A \<noteq> []"
    by (simp add: get_organic_def scenario_A_def)
  have h3: "list_all has_link (get_organic scenario_A)"
    by (simp add: get_organic_def scenario_A_def has_link_def result_with_link_def)
  from identical_lists [OF refl h2 h3, of py_netloc] h2 h3 show ?thesis by simp
qed

subsection \<open>C6: the position changes\<close>

text \<open>
  Claim C6. The position changes hold exactly the common domains whose absolute position
  difference is strictly greater than 2, and the entry of such a domain records its
  position in the first set, its position in the second set and
  \<^verbatim>\<open>diff = pos2 - pos1\<close>, which is positive exactly when the domain is at a
  higher-numbered position in the second set.
\<close>

theorem position_changes_threshold:
  assumes "analyze_serp_similarity netloc_of results1 results2 = Inr rep"
  shows "(\<forall>domain. domain \<in> dom (position_changes rep) \<longleftrightarrow>
            domain \<in> common_domains rep \<and>
            (\<exists>v. position_differences rep domain = Some v \<and> 2 < v))
       \<and> (\<forall>domain c. position_changes rep domain = Some c \<longrightarrow>
            map_of (domains1 rep) domain = Some (pos1 c) \<and>
            map_of (domains2 rep) domain = Some (pos2 c) \<and>
            position_differences rep domain = Some \<bar>pos1 c - pos2 c\<bar> \<and>
            2 < \<bar>pos1 c - pos2 c\<bar> \<and>
            diff c = pos2 c - pos1 c \<and>
            (0 < diff c \<longleftrightarrow> pos1 c < pos2 c))"
proof -
  from assms obtain dom1 dom2 url1 url2 where
    m: "similarity_metrics dom1 dom2 url1 url2
          (length (get_organic results1)) (length (get_organic results2)) = Inr rep"
    by (rule analyze_InrE)
  note d = metrics_InrD [OF m]
  have dom_pd: "dom (position_differences rep) = common_domains rep"
    unfolding d(5) d(1) by (rule dom_position_differences_of)
  have A: "\<And>domain. domain \<in> dom (position_changes rep) \<longleftrightarrow>
            domain \<in> common_domains rep \<and>
            (\<exists>v. position_differences rep domain = Some v \<and> 2 < v)"
  proof -
    fix domain
    have "domain \<in> dom (position_changes rep) \<longleftrightarrow>
            (\<exists>v. position_differences rep domain = Some v \<and> 2 < v)"
      unfolding d(5) d(7) dom_def
      by (auto simp: position_changes_of_Some position_differences_of_Some)
    moreover have "(\<exists>v. position_differences rep domain = Some v \<and> 2 < v)
                     \<Longrightarrow> domain \<in> common_domains rep"
      using dom_pd by auto
    ultimately show "domain \<in> dom (position_changes rep) \<longleftrightarrow>
            domain \<in> common_domains rep \<and>
            (\<exists>v. position_differences rep domain = Some v \<and> 2 < v)" by blast
  qed
  have B: "\<And>domain c. position_changes rep domain = Some c \<Longrightarrow>
            map_of (domains1 rep) domain = Some (pos1 c) \<and>
            map_of (domains2 rep) domain = Some (pos2 c) \<and>
            position_differences rep domain = Some \<bar>pos1 c - pos2 c\<bar> \<and>
            2 < \<bar>pos1 c - pos2 c\<bar> \<and>
            diff c = pos2 c - pos1 c \<and>
            (0 < diff c \<longleftrightarrow> pos1 c < pos2 c)"
    unfolding d(5) d(7) d(8) d(9)
    by (auto simp: position_changes_of_Some position_differences_of_Some)
  from A B show ?thesis by blast
qed

theorem position_changes_threshold_witness:
  "\<exists>rep. analyze_serp_similarity py_netloc moved_A moved_B = Inr rep \<and>
         position_changes rep ''d.com'' = Some \<lparr>pos1 = 4, pos2 = 1, diff = - 3\<rparr> \<and>
         position_differences rep ''d.com'' = Some 3 \<and>
         position_changes rep ''a.com'' = None \<and>
         position_differences rep ''a.com'' = Some 2 \<and>
         map_of (domains1 rep) ''d.com'' = Some 4 \<and>
         map_of (domains2 rep) ''d.com'' = Some 1"
proof -
  have "case analyze_serp_similarity py_netloc moved_A moved_B of
          Inl e \<Rightarrow> False
        | Inr rep \<Rightarrow> position_changes rep ''d.com'' = Some \<lparr>pos1 = 4, pos2 = 1, diff = - 3\<rparr>
                   \<and> position_changes rep ''a.com'' = None
                   \<and> position_differences rep ''a.com'' = Some 2"
    by code_simp
  then obtain rep where r: "analyze_serp_similarity py_netloc moved_A moved_B = Inr rep"
    and c: "position_changes rep ''d.com'' = Some \<lparr>pos1 = 4, pos2 = 1, diff = - 3\<rparr>"
           "position_changes rep ''a.com'' = None"
           "position_differences rep ''a.com'' = Some 2"
    by (auto split: sum.splits)
  from position_changes_threshold [OF r] c(1)
  have "map_of (domains1 rep) ''d.com'' = Some 4 \<and> map_of (domains2 rep) ''d.com'' = Some 1
        \<and> position_differences rep ''d.com'' = Some 3"
    by fastforce
  with r c show ?thesis by blast
qed

subsection \<open>C7: the average position difference\<close>

text \<open>
  Claim C7 says that the analysis returns an average position difference of 0 whenever
  there is no common domain, and otherwise the arithmetic mean of the position
  differences. Two inputs without results have no common domain, but no report is
  returned for them: the division of C2 raises before the mean is taken. And the mean is
  computed in floating point: for \<open>moved_A\<close> and \<open>moved_B\<close> the position differences 2, 2
  and 3 have the mean 7/3, and the report holds the binary64 number next to it,
  2.3333333333333335.
\<close>

theorem avg_position_diff_counterexample:
  "\<not> (case analyze_serp_similarity py_netloc empty_organic empty_organic of
         Inl e \<Rightarrow> False
       | Inr rep \<Rightarrow> avg_position_diff rep = 0)
   \<and> (case analyze_serp_similarity py_netloc moved_A moved_B of
         Inl e \<Rightarrow> False
       | Inr rep \<Rightarrow>
           of_int (\<Sum>domain\<in>common_domains rep. the (position_differences rep domain))
             / of_nat (card (common_domains rep)) = (7 / 3 :: rat)
           \<and> avg_position_diff rep = 5254199565265579 / 2251799813685248
           \<and> avg_position_diff rep \<noteq> 7 / 3)"
proof -
  have "\<not> (case analyze_serp_similarity py_netloc empty_organic empty_organic of
         Inl e \<Rightarrow> False
       | Inr rep \<Rightarrow> avg_position_diff rep = 0)"
    by (simp add: analyze_serp_similarity_def similarity_metrics_def get_organic_def
          empty_organic_def len_def)
  moreover have "case analyze_serp_similarity py_netloc moved_A moved_B of
         Inl e \<Rightarrow> False
       | Inr rep \<Rightarrow>
           of_int (\<Sum>domain\<in>common_domains rep. the (position_differences rep domain))
             / of_nat (card (common_domains rep)) = (7 / 3 :: rat)
           \<and> avg_position_diff rep = 5254199565265579 / 2251799813685248
           \<and> avg_position_diff rep \<noteq> 7 / 3"
    by code_simp
  ultimately show ?thesis by blast
qed

text \<open>
  Claim C7, amended. If every result has a link and the two inputs are not both empty,
  the analysis returns a report. When it has no common domain, its average position
  difference is 0, and no error comes from the mean of an empty collection. Otherwise
  the average is the arithmetic mean of the values of the position differences, one for
  each common domain, rounded to the nearest binary64 number; it differs from the exact
  mean by at most the fraction \<open>1 / 2 ^ 53\<close> of it.
\<close>

theorem avg_position_diff_rounded_mean:
  assumes "list_all has_link (get_organic results1)"
      and "list_all has_link (get_organic results2)"
      and "get_organic results1 \<noteq> [] \<or> get_organic results2 \<noteq> []"
  shows "\<exists>rep. analyze_serp_similarity netloc_of results1 results2 = Inr rep \<and>
           dom (position_differences rep) = common_domains rep \<and>
           (common_domains rep = {} \<longrightarrow> avg_position_diff rep = 0) \<and>
           (common_domains rep \<noteq> {} \<longrightarrow>
              avg_position_diff rep =
                binary64_round
                  (of_int (\<Sum>domain\<in>dom (position_differences rep).
                             the (position_differences rep domain))
                   / of_nat (card (dom (position_differences rep)))) \<and>
              \<bar>avg_position_diff rep
                 - of_int (\<Sum>domain\<in>dom (position_differences rep).
                             the (position_differences rep domain))
                   / of_nat (card (dom (position_differences rep)))\<bar>
                \<le> of_int (\<Sum>domain\<in>dom (position_differences rep).
                             the (position_differences rep domain))
                   / of_nat (card (dom (position_differences rep))) / 2 ^ 53)"
proof -
  from assms have "\<exists>rep. analyze_serp_similarity netloc_of results1 results2 = Inr rep"
    by (simp add: analyze_returns)
  then obtain rep where r: "analyze_serp_similarity netloc_of results1 results2 = Inr rep" ..
  note a = avg_of_report [OF r]
  define mean :: rat where
    "mean = of_int (\<Sum>domain\<in>dom (position_differences rep).
                      the (position_differences rep domain))
            / of_nat (card (dom (position_differences rep)))"
  have "0 \<le> mean" unfolding mean_def
    by (intro divide_nonneg_nonneg) (simp_all only: of_int_0_le_iff of_nat_0_le_iff a(4))
  then have close: "\<bar>binary64_round mean - mean\<bar> \<le> mean / 2 ^ 53"
    by (rule binary64_round_close)
  have "common_domains rep \<noteq> {} \<longrightarrow>
          avg_position_diff rep = binary64_round mean \<and>
          \<bar>avg_position_diff rep - mean\<bar> \<le> mean / 2 ^ 53"
    using a(3) close unfolding mean_def by simp
  with r a(1) a(2) show ?thesis unfolding mean_def by blast
qed

theorem avg_position_diff_rounded_mean_witness:
  "list_all has_link (get_organic scenario_A) \<and> list_all has_link (get_organic disjoint_B) \<and>
   list_all has_link (get_organic moved_A) \<and> list_all has_link (get_organic moved_B) \<and>
   get_organic scenario_A \<noteq> [] \<and> get_organic moved_A \<noteq> [] \<and>
   (\<exists>rep. analyze_serp_similarity py_netloc scenario_A disjoint_B = Inr rep \<and>
          common_domains rep = {} \<and> avg_position_diff rep = 0) \<and>
   (\<exists>rep. analyze_serp_similarity py_netloc moved_A moved_B = Inr rep \<and>
          common_domains rep \<noteq> {} \<and>
          avg_position_diff rep = 5254199565265579 / 2251799813685248 \<and>
          avg_position_diff rep =
            binary64_round
              (of_int (\<Sum>domain\<in>dom (position_differences rep).
                         the (position_differences rep domain))
               / of_nat (card (dom (position_differences rep)))))"
proof -
  have l: "list_all has_link (get_organic scenario_A)" "list_all has_link (get_organic disjoint_B)"
          "list_all has_link (get_organic moved_A)" "list_all has_link (get_organic moved_B)"
    by (simp_all add: get_organic_def scenario_A_def disjoint_B_def moved_A_def moved_B_def
          has_link_def result_with_link_def)
  have n0: "get_organic scenario_A \<noteq> []" "get_organic moved_A \<noteq> []"
    by (simp_all add: get_organic_def scenario_A_def moved_A_def)
  then have n: "get_organic scenario_A \<noteq> [] \<or> get_organic disjoint_B \<noteq> []"
               "get_organic moved_A \<noteq> [] \<or> get_organic moved_B \<noteq> []"
    by simp_all
  from avg_position_diff_rounded_mean [OF l(1) l(2) n(1), of py_netloc] obtain rep1 where
    r1: "analyze_serp_similarity py_netloc scenario_A disjoint_B = Inr rep1" and
    z1: "common_domains rep1 = {} \<longrightarrow> avg_position_diff rep1 = 0"
    by blast
  have "case analyze_serp_similarity py_netloc scenario_A disjoint_B of
          Inl e \<Rightarrow> False | Inr rep \<Rightarrow> common_domains rep = {}"
    by code_simp
  with r1 have c1: "common_domains rep1 = {}" by simp
  with z1 have a1: "avg_position_diff rep1 = 0" by blast
  from avg_position_diff_rounded_mean [OF l(3) l(4) n(2), of py_netloc] obtain rep2 where
    r2: "analyze_serp_similarity py_netloc moved_A moved_B = Inr rep2" and
    z2: "common_domains rep2 \<noteq> {} \<longrightarrow>
           avg_position_diff rep2 =
             binary64_round
               (of_int (\<Sum>domain\<in>dom (position_differences rep2).
                          the (position_differences rep2 domain))
                / of_nat (card (dom (position_differences rep2))))"
    by blast
  have "case analyze_serp_similarity py_netloc moved_A moved_B of
          Inl e \<Rightarrow> False
        | Inr rep \<Rightarrow> ''a.com'' \<in> common_domains rep
                   \<and> avg_position_diff rep = 5254199565265579 / 2251799813685248"
    by code_simp
  with r2 have c2: "''a.com'' \<in> common_domains rep2"
                   "avg_position_diff rep2 = 5254199565265579 / 2251799813685248" by simp_all
  from c2 have ne: "common_domains rep2 \<noteq> {}" by blast
  with z2 have m2: "avg_position_diff rep2 =
             binary64_round
               (of_int (\<Sum>domain\<in>dom (position_differences rep2).
                          the (position_differences rep2 domain))
                / of_nat (card (dom (position_differences rep2))))" by blast
  from l n0 r1 c1 a1 r2 ne c2(2) m2 show ?thesis by blast
qed

subsection \<open>C8: the domain of a URL\<close>

text \<open>
  Claim C8. The domain of a URL is to be its host with the scheme and a leading
  \<^verbatim>\<open>www.\<close> removed and nothing else altered. \<^verbatim>\<open>get_domain\<close> removes a leading
  \<^verbatim>\<open>www.\<close>, but \<^verbatim>\<open>replace\<close> deletes every occurrence of \<^verbatim>\<open>www.\<close>, also inside the
  host: the domain computed for \<^verbatim>\<open>https://awww.example.com/\<close> is \<^verbatim>\<open>aexample.com\<close>.
\<close>

theorem get_domain_deletes_inner_www:
  "get_domain py_netloc ''https://www.example.com/'' = ''example.com''
   \<and> get_domain py_netloc ''https://awww.example.com/'' = ''aexample.com''"
  by code_simp

subsection \<open>C9: the scenario of the specification\<close>

text \<open>
  Claim C9. For A with the results \<^verbatim>\<open>https://a.com/1\<close>, \<^verbatim>\<open>https://b.com/1\<close> and B with the
  results \<^verbatim>\<open>https://b.com/2\<close>, \<^verbatim>\<open>https://a.com/1\<close>, the report has the common domains
  \<^verbatim>\<open>a.com\<close> and \<^verbatim>\<open>b.com\<close>, the domain positions \<^verbatim>\<open>a.com\<close>: 1, \<^verbatim>\<open>b.com\<close>: 2 for A and
  \<^verbatim>\<open>b.com\<close>: 1, \<^verbatim>\<open>a.com\<close>: 2 for B, the position differences \<^verbatim>\<open>a.com\<close>: 1 and
  \<^verbatim>\<open>b.com\<close>: 1, the single common URL \<^verbatim>\<open>https://a.com/1\<close>, and no position change.
\<close>

theorem scenario_report:
  "\<exists>rep. analyze_serp_similarity py_netloc scenario_A scenario_B = Inr rep \<and>
    common_domains rep = {''a.com'', ''b.com''} \<and>
    domains1 rep = [(''a.com'', 1), (''b.com'', 2)] \<and>
    domains2 rep = [(''b.com'', 1), (''a.com'', 2)] \<and>
    position_differences rep = [''a.com'' \<mapsto> 1, ''b.com'' \<mapsto> 1] \<and>
    common_urls rep = {''https://a.com/1''} \<and>
    position_changes rep = Map.empty"
proof -
  let ?d1 = "[(''a.com'', 1), (''b.com'', 2)] :: int pydict"
  let ?d2 = "[(''b.com'', 1), (''a.com'', 2)] :: int pydict"
  let ?u1 = "[(''https://a.com/1'', 1), (''https://b.com/1'', 2)] :: int pydict"
  let ?u2 = "[(''https://b.com/2'', 1), (''https://a.com/1'', 2)] :: int pydict"
  have i1: "position_index (get_domain py_netloc) 0 (get_organic scenario_A) [] = Inr ?d1"
    by code_simp
  have i2: "position_index (get_domain py_netloc) 0 (get_organic scenario_B) [] = Inr ?d2"
    by code_simp
  have i3: "position_index (\<lambda>url. url) 0 (get_organic scenario_A) [] = Inr ?u1"
    by code_simp
  have i4: "position_index (\<lambda>url. url) 0 (get_organic scenario_B) [] = Inr ?u2"
    by code_simp
  have n: "length (get_organic scenario_A) = 2" "length (get_organic scenario_B) = 2"
    by (simp_all add: get_organic_def scenario_A_def scenario_B_def)
  have a: "analyze_serp_similarity py_netloc scenario_A scenario_B
             = similarity_metrics ?d1 ?d2 ?u1 ?u2 2 2"
    by (simp add: analyze_serp_similarity_def Let_def i1 i2 i3 i4 n)
  have "0 < max (len ?d1) (len ?d2)" "0 < max (len ?u1) (len ?u2)"
    by (simp_all add: len_def)
  from metrics_returns [OF this] obtain rep where
    m: "similarity_metrics ?d1 ?d2 ?u1 ?u2 2 2 = Inr rep" by blast
  note d = metrics_InrD [OF m]
  have "common_domains rep = {''a.com'', ''b.com''}"
    unfolding d(1) by (auto simp: keys_def)
  moreover have "common_urls rep = {''https://a.com/1''}"
    unfolding d(2) by (auto simp: keys_def)
  moreover have "position_differences rep = [''a.com'' \<mapsto> 1, ''b.com'' \<mapsto> 1]"
    unfolding d(5) by (auto simp: fun_eq_iff position_differences_of_def keys_def)
  moreover have "position_changes rep = Map.empty"
    unfolding d(7) by (auto simp: fun_eq_iff position_changes_of_def keys_def)
  ultimately show ?thesis using a m d(8) d(9) by simp
qed

subsection \<open>C10: an input without the key \<^verbatim>\<open>organic\<close>\<close>

text \<open>
  Claim C10. An input that lacks the key \<^verbatim>\<open>organic\<close> is treated as an empty list of
  results: in either argument place the analysis gives the same result as for an input
  with an empty list, the corresponding total is 0 in every report returned, and a report
  is returned whenever the other input is a non-empty list of results with links.
\<close>

theorem missing_organic_key:
  assumes "organic missing = None"
  shows "analyze_serp_similarity netloc_of missing other
           = analyze_serp_similarity netloc_of empty_organic other
       \<and> analyze_serp_similarity netloc_of other missing
           = analyze_serp_similarity netloc_of other empty_organic
       \<and> (\<forall>rep. analyze_serp_similarity netloc_of missing other = Inr rep
              \<longrightarrow> total_results1 rep = 0)
       \<and> (\<forall>rep. analyze_serp_similarity netloc_of other missing = Inr rep
              \<longrightarrow> total_results2 rep = 0)
       \<and> (get_organic other \<noteq> [] \<and> list_all has_link (get_organic other) \<longrightarrow>
            (\<exists>rep. analyze_serp_similarity netloc_of missing other = Inr rep) \<and>
            (\<exists>rep. analyze_serp_similarity netloc_of other missing = Inr rep))"
proof -
  from assms have g: "get_organic missing = []" by (simp add: get_organic_def)
  have ge: "get_organic empty_organic = []" by (simp add: get_organic_def empty_organic_def)
  have A: "analyze_serp_similarity netloc_of missing other
           = analyze_serp_similarity netloc_of empty_organic other"
    by (simp add: analyze_serp_similarity_def g ge)
  have B: "analyze_serp_similarity netloc_of other missing
           = analyze_serp_similarity netloc_of other empty_organic"
    by (simp add: analyze_serp_similarity_def g ge)
  have C: "\<forall>rep. analyze_serp_similarity netloc_of missing other = Inr rep
              \<longrightarrow> total_results1 rep = 0"
  proof (intro allI impI)
    fix rep assume "analyze_serp_similarity netloc_of missing other = Inr rep"
    then obtain dom1 dom2 url1 url2 where
      m: "similarity_metrics dom1 dom2 url1 url2
            (length (get_organic missing)) (length (get_organic other)) = Inr rep"
      by (rule analyze_InrE)
    from metrics_InrD(10) [OF m] g show "total_results1 rep = 0" by simp
  qed
  have D: "\<forall>rep. analyze_serp_similarity netloc_of other missing = Inr rep
              \<longrightarrow> total_results2 rep = 0"
  proof (intro allI impI)
    fix rep assume "analyze_serp_similarity netloc_of other missing = Inr rep"
    then obtain dom1 dom2 url1 url2 where
      m: "similarity_metrics dom1 dom2 url1 url2
            (length (get_organic other)) (length (get_organic missing)) = Inr rep"
      by (rule analyze_InrE)
    from metrics_InrD(11) [OF m] g show "total_results2 rep = 0" by simp
  qed
  have E: "get_organic other \<noteq> [] \<and> list_all has_link (get_organic other) \<longrightarrow>
            (\<exists>rep. analyze_serp_similarity netloc_of missing other = Inr rep) \<and>
            (\<exists>rep. analyze_serp_similarity netloc_of other missing = Inr rep)"
    by (simp add: analyze_returns g)
  from A B C D E show ?thesis by blast
qed

theorem missing_organic_key_witness:
  "organic no_organic = None \<and>
   analyze_serp_similarity py_netloc no_organic scenario_A
     = analyze_serp_similarity py_netloc empty_organic scenario_A \<and>
   analyze_serp_similarity py_netloc scenario_A no_organic
     = analyze_serp_similarity py_netloc scenario_A empty_organic \<and>
   (\<exists>rep. analyze_serp_similarity py_netloc no_organic scenario_A = Inr rep \<and>
          total_results1 rep = 0) \<and>
   (\<exists>rep. analyze_serp_similarity py_netloc scenario_A no_organic = Inr rep \<and>
          total_results2 rep = 0)"
proof -
  have h: "organic no_organic = None" by (simp add: no_organic_def)
  have o: "get_organic scenario_A \<noteq> [] \<and> list_all has_link (get_organic scenario_A)"
    by (simp add: get_organic_def scenario_A_def has_link_def result_with_link_def)
  from missing_organic_key [OF h, of py_netloc scenario_A] h o show ?thesis by blast
qed

end
